theory Spec2Isabelle
  imports Main "HOL-Library.Word"
begin

section \<open>The generation client of \<^verbatim>\<open>src/services/geminiService.ts\<close>\<close>

text \<open>
  The service has three exported functions, \<^verbatim>\<open>fileToGenerativePart\<close>, \<^verbatim>\<open>editImage\<close> and
  \<^verbatim>\<open>generateVideo\<close>, and one private helper, \<^verbatim>\<open>getAiClient\<close>. All their effects go
  through collaborators that are not code of the repository: the process environment
  (\<^verbatim>\<open>process.env.API_KEY\<close>), the browser's \<^verbatim>\<open>FileReader\<close>, the remote SDK client and the
  progress callback. The embedding takes the collaborators' answers as an explicit
  environment, fixed for the duration of a call, and returns, next to the result of a
  call, the trace of the effects the call performed, in order. The progress callback is
  taken to return normally. JavaScript strings are modelled as lists of characters.
\<close>

subsection \<open>Values\<close>

type_synonym byte = "8 word"

text \<open>
  What a call can throw (or a promise reject with): an \<^verbatim>\<open>Error\<close> object made by the
  service itself, carrying its message; the runtime's \<^verbatim>\<open>TypeError\<close> for a property read
  on \<^verbatim>\<open>undefined\<close>; the event the \<^verbatim>\<open>FileReader\<close> hands to \<^verbatim>\<open>onerror\<close>; whatever the
  remote SDK rejects with.
\<close>

datatype error =
    Error string
  | TypeError
  | ReaderErrorEvent
  | RemoteError string

record File =
  file_type :: string
  file_bytes :: "byte list"

text \<open>
  The value of \<^verbatim>\<open>reader.result\<close> when \<^verbatim>\<open>loadend\<close> fires (a string, or something else:
  \<^verbatim>\<open>null\<close>, an \<^verbatim>\<open>ArrayBuffer\<close>), and what the reader does with a file: it fires \<^verbatim>\<open>error\<close>
  first (which rejects the promise, so that the later \<^verbatim>\<open>loadend\<close> has no effect), or it
  fires \<^verbatim>\<open>loadend\<close>.
\<close>

datatype reader_result = StringResult string | OtherResult

datatype read_outcome = ErrorEvent | LoadEnd reader_result

text \<open>The object \<^verbatim>\<open>fileToGenerativePart\<close> returns; \<^verbatim>\<open>data\<close> is \<^verbatim>\<open>undefined\<close> when absent.\<close>

record inline_data =
  data :: "string option"
  mimeType :: string

record generative_part =
  inlineData :: inline_data

text \<open>The request and the response of \<^verbatim>\<open>ai.models.generateContent\<close>.\<close>

datatype request_part = ImagePart generative_part | TextPart string

datatype modality = TEXT | IMAGE | AUDIO

record content_request =
  cr_model :: string
  cr_parts :: "request_part list"
  cr_responseModalities :: "modality list"

record blob =
  blob_data :: "string option"
  blob_mimeType :: "string option"

record part =
  part_inlineData :: "blob option"
  part_text :: "string option"

record content =
  parts :: "part list option"

record candidate =
  content :: "content option"

record content_response =
  candidates :: "candidate list option"

text \<open>The request of \<^verbatim>\<open>ai.models.generateVideos\<close> and the operation snapshots it and
  \<^verbatim>\<open>ai.operations.getVideosOperation\<close> answer with. Every field the service reads through
  \<^verbatim>\<open>?.\<close> is optional; so is \<^verbatim>\<open>done\<close>, which the loop only tests for truthiness.\<close>

record image =
  imageBytes :: "string option"
  image_mimeType :: string

record video_config =
  numberOfVideos :: nat
  resolution :: string
  lastFrame :: image
  aspectRatio :: string

record video_request =
  vr_model :: string
  vr_prompt :: string
  vr_image :: image
  vr_config :: video_config

record video =
  uri :: "string option"

record generated_video =
  gv_video :: "video option"

record videos_response =
  generatedVideos :: "generated_video list option"

record operation =
  op_name :: string
  op_done :: "bool option"
  op_response :: "videos_response option"

subsection \<open>The environment and the trace\<close>

text \<open>
  \<open>getVideosOperation\<close> is the script of the remote service's answers to the successive
  status fetches of one job, in the order the fetches are issued. A run that has issued a
  fetch the script has no answer for is still awaiting that answer.
\<close>

record env =
  API_KEY :: "string option"
  readAsDataURL :: "File \<Rightarrow> read_outcome"
  generateContent :: "content_request \<Rightarrow> error + content_response"
  generateVideos :: "video_request \<Rightarrow> error + operation"
  getVideosOperation :: "(error + operation) list"

datatype event =
    Progress string
  | ReadFile File
  | CallGenerateContent content_request
  | CallGenerateVideos video_request
  | Sleep nat
  | CallGetVideosOperation operation

datatype 'a outcome = Returned 'a | Threw error | Awaiting

subsection \<open>JavaScript helpers\<close>

text \<open>\<^verbatim>\<open>s.split(c)\<close> for a one-character separator: \<^verbatim>\<open>"".split(",")\<close> is \<^verbatim>\<open>[""]\<close>.\<close>

fun split_on :: "char \<Rightarrow> string \<Rightarrow> string list" where
  "split_on c [] = [[]]"
| "split_on c (x # xs) =
     (if x = c then [] # split_on c xs
      else (case split_on c xs of [] \<Rightarrow> [[x]] | y # ys \<Rightarrow> (x # y) # ys))"

text \<open>\<^verbatim>\<open>xs[i]\<close>: \<^verbatim>\<open>undefined\<close> out of range.\<close>

fun nth_opt :: "'a list \<Rightarrow> nat \<Rightarrow> 'a option" where
  "nth_opt [] i = None"
| "nth_opt (x # xs) 0 = Some x"
| "nth_opt (x # xs) (Suc i) = nth_opt xs i"

text \<open>Truthiness of a value of type \<^verbatim>\<open>string | undefined\<close>.\<close>

fun truthy :: "string option \<Rightarrow> bool" where
  "truthy None = False"
| "truthy (Some s) = (s \<noteq> [])"

text \<open>A value of type \<^verbatim>\<open>string | undefined\<close> inside a template literal.\<close>

fun template :: "string option \<Rightarrow> string" where
  "template None = ''undefined''"
| "template (Some s) = s"

text \<open>A non-negative integer inside a template literal: its decimal digits. (\<^verbatim>\<open>pollCount\<close>
  is a double; it counts exactly up to \<open>2 ^ 53\<close>, which at one poll every ten seconds is
  out of reach, and is modelled as \<open>nat\<close>.)\<close>

definition digit :: "nat \<Rightarrow> char" where
  "digit d = char_of (48 + d)"

fun decimal :: "nat \<Rightarrow> string" where
  "decimal n = (if n < 10 then [digit n] else decimal (n div 10) @ [digit (n mod 10)])"

declare decimal.simps [simp del]

subsection \<open>Base64 and data URLs\<close>

text \<open>
  \<^verbatim>\<open>FileReader.readAsDataURL\<close> belongs to the browser, not to the repository: the service
  only takes the reader's result apart. To say what the encoder's output decodes to, the
  base64 alphabet, encoding and decoding of RFC 4648 are written out here: three octets
  are four sextets, and a last group of one or two octets is padded with \<^verbatim>\<open>=\<close>.
\<close>

definition b64_char :: "nat \<Rightarrow> char" where
  "b64_char i =
     (if i < 26 then char_of (65 + i)
      else if i < 52 then char_of (71 + i)
      else if i < 62 then char_of (i - 4)
      else if i = 62 then CHR ''+''
      else CHR ''/'')"

definition b64_index :: "char \<Rightarrow> nat option" where
  "b64_index c =
     (let v = (of_char c :: nat) in
      if 65 \<le> v \<and> v \<le> 90 then Some (v - 65)
      else if 97 \<le> v \<and> v \<le> 122 then Some (v - 71)
      else if 48 \<le> v \<and> v \<le> 57 then Some (v + 4)
      else if v = 43 then Some 62
      else if v = 47 then Some 63
      else None)"

definition sextets :: "nat \<Rightarrow> nat \<Rightarrow> nat \<Rightarrow> nat list" where
  "sextets a b c = [a div 4, (a mod 4) * 16 + b div 16, (b mod 16) * 4 + c div 64, c mod 64]"

definition octets :: "nat \<Rightarrow> nat \<Rightarrow> nat \<Rightarrow> nat \<Rightarrow> nat list" where
  "octets i j k l = [i * 4 + j div 16, (j mod 16) * 16 + k div 4, (k mod 4) * 64 + l]"

fun base64_encode :: "byte list \<Rightarrow> string" where
  "base64_encode [] = []"
| "base64_encode [a] = map b64_char (take 2 (sextets (unat a) 0 0)) @ ''==''"
| "base64_encode [a, b] = map b64_char (take 3 (sextets (unat a) (unat b) 0)) @ ''=''"
| "base64_encode (a # b # c # bs) =
     map b64_char (sextets (unat a) (unat b) (unat c)) @ base64_encode bs"

fun base64_decode :: "string \<Rightarrow> byte list option" where
  "base64_decode [] = Some []"
| "base64_decode (w # x # y # z # cs) =
     (case (b64_index w, b64_index x) of
        (Some i, Some j) \<Rightarrow>
          if y = CHR ''='' \<and> z = CHR ''='' \<and> cs = []
          then Some (map of_nat (take 1 (octets i j 0 0)))
          else if z = CHR ''='' \<and> cs = []
          then (case b64_index y of
                  Some k \<Rightarrow> Some (map of_nat (take 2 (octets i j k 0)))
                | None \<Rightarrow> None)
          else (case (b64_index y, b64_index z, base64_decode cs) of
                  (Some k, Some l, Some bs) \<Rightarrow> Some (map of_nat (octets i j k l) @ bs)
                | _ \<Rightarrow> None)
      | _ \<Rightarrow> None)"
| "base64_decode _ = None"

text \<open>The data URL of a file as browsers build it (a file without a declared type is
  given the type \<^verbatim>\<open>application/octet-stream\<close>), and a reader that loads it.\<close>

definition data_url :: "File \<Rightarrow> string" where
  "data_url f =
     ''data:'' @ (if file_type f = [] then ''application/octet-stream'' else file_type f)
       @ '';base64,'' @ base64_encode (file_bytes f)"

definition browser_reader :: "File \<Rightarrow> read_outcome" where
  "browser_reader f = LoadEnd (StringResult (data_url f))"

subsection \<open>\<^verbatim>\<open>getAiClient\<close>\<close>

definition api_key_missing :: string where
  "api_key_missing = ''API_KEY is not available in process.env. Please select an API key.''"

text \<open>The client is the key it was made with.\<close>

definition getAiClient :: "env \<Rightarrow> error + string" where
  "getAiClient e =
     (case API_KEY e of
        None \<Rightarrow> Inl (Error api_key_missing)
      | Some key \<Rightarrow> if \<not> truthy (Some key) then Inl (Error api_key_missing) else Inr key)"

subsection \<open>\<^verbatim>\<open>fileToGenerativePart\<close>\<close>

definition not_base64_string :: string where
  "not_base64_string = ''Failed to read file as base64 string.''"

definition fileToGenerativePart :: "env \<Rightarrow> File \<Rightarrow> error + generative_part" where
  "fileToGenerativePart e f =
     (case readAsDataURL e f of
        ErrorEvent \<Rightarrow> Inl ReaderErrorEvent
      | LoadEnd (StringResult s) \<Rightarrow>
          Inr \<lparr>inlineData = \<lparr>data = nth_opt (split_on CHR '','' s) 1, mimeType = file_type f\<rparr>\<rparr>
      | LoadEnd OtherResult \<Rightarrow> Inl (Error not_base64_string))"

subsection \<open>\<^verbatim>\<open>editImage\<close>\<close>

definition no_image_data :: string where
  "no_image_data = ''No image data found in the API response.''"

text \<open>The \<^verbatim>\<open>for\<close> loop over the parts: the data of the first part that has \<^verbatim>\<open>inlineData\<close>
  (itself possibly \<^verbatim>\<open>undefined\<close>), or \<open>None\<close> when the loop runs to its end.\<close>

fun scan_parts :: "part list \<Rightarrow> string option option" where
  "scan_parts [] = None"
| "scan_parts (p # ps) =
     (case part_inlineData p of
        Some b \<Rightarrow> Some (blob_data b)
      | None \<Rightarrow> scan_parts ps)"

text \<open>Lines 46 to 52: \<^verbatim>\<open>response.candidates[0].content.parts\<close> is read without a guard, so
  each missing link is a \<^verbatim>\<open>TypeError\<close>.\<close>

definition first_image :: "content_response \<Rightarrow> error + string option" where
  "first_image response =
     (case candidates response of
        None \<Rightarrow> Inl TypeError
      | Some [] \<Rightarrow> Inl TypeError
      | Some (c # _) \<Rightarrow>
          (case content c of
             None \<Rightarrow> Inl TypeError
           | Some ct \<Rightarrow>
               (case parts ct of
                  None \<Rightarrow> Inl TypeError
                | Some ps \<Rightarrow>
                    (case scan_parts ps of
                       Some d \<Rightarrow> Inr d
                     | None \<Rightarrow> Inl (Error no_image_data)))))"

definition edit_request :: "generative_part \<Rightarrow> string \<Rightarrow> content_request" where
  "edit_request imagePart prompt =
     \<lparr>cr_model = ''gemini-2.5-flash-image'',
      cr_parts = [ImagePart imagePart, TextPart prompt],
      cr_responseModalities = [IMAGE]\<rparr>"

definition editImage :: "env \<Rightarrow> File \<Rightarrow> string \<Rightarrow> (error + string option) \<times> event list" where
  "editImage e imageFile prompt =
     (case getAiClient e of
        Inl err \<Rightarrow> (Inl err, [])
      | Inr ai \<Rightarrow>
          (case fileToGenerativePart e imageFile of
             Inl err \<Rightarrow> (Inl err, [ReadFile imageFile])
           | Inr imagePart \<Rightarrow>
               (case generateContent e (edit_request imagePart prompt) of
                  Inl err \<Rightarrow>
                    (Inl err, [ReadFile imageFile, CallGenerateContent (edit_request imagePart prompt)])
                | Inr response \<Rightarrow>
                    (first_image response,
                     [ReadFile imageFile, CallGenerateContent (edit_request imagePart prompt)]))))"

subsection \<open>\<^verbatim>\<open>generateVideo\<close>\<close>

definition preparing :: string where
  "preparing = ''Preparing images for video generation...''"

definition initiating :: string where
  "initiating = ''Initiating video generation with Veo model...''"

definition in_progress :: string where
  "in_progress = ''Video generation in progress... This may take a few minutes.''"

definition checking_status :: "nat \<Rightarrow> string" where
  "checking_status pollCount = ''Checking status (attempt '' @ decimal pollCount @ '')... Please be patient.''"

definition finalizing :: string where
  "finalizing = ''Finalizing video...''"

definition no_download_link :: string where
  "no_download_link = ''Video generation completed, but no download link was found.''"

definition video_request_of :: "string \<Rightarrow> generative_part \<Rightarrow> File \<Rightarrow> generative_part \<Rightarrow> File \<Rightarrow> video_request" where
  "video_request_of prompt startPart startImageFile endPart endImageFile =
     \<lparr>vr_model = ''veo-3.1-fast-generate-preview'',
      vr_prompt = prompt,
      vr_image = \<lparr>imageBytes = data (inlineData startPart), image_mimeType = file_type startImageFile\<rparr>,
      vr_config =
        \<lparr>numberOfVideos = 1,
         resolution = ''720p'',
         lastFrame = \<lparr>imageBytes = data (inlineData endPart), image_mimeType = file_type endImageFile\<rparr>,
         aspectRatio = ''16:9''\<rparr>\<rparr>"

text \<open>\<^verbatim>\<open>!operation.done\<close>: an absent \<^verbatim>\<open>done\<close> is not done.\<close>

definition is_done :: "operation \<Rightarrow> bool" where
  "is_done operation = (op_done operation = Some True)"

text \<open>
  The \<^verbatim>\<open>while\<close> loop of lines 88 to 93, on the current snapshot, the poll count, the
  answers the remote service has left, and the trace so far. It ends with the snapshot
  it stopped on, with the rejection of a fetch, or awaiting an answer the script does not
  hold.
\<close>

fun poll_loop :: "operation \<Rightarrow> nat \<Rightarrow> (error + operation) list \<Rightarrow> event list
    \<Rightarrow> operation outcome \<times> event list" where
  "poll_loop operation pollCount [] tr =
     (if is_done operation then (Returned operation, tr)
      else (Awaiting,
            tr @ [Progress (checking_status (pollCount + 1)), Sleep 10000, CallGetVideosOperation operation]))"
| "poll_loop operation pollCount (r # rs) tr =
     (if is_done operation then (Returned operation, tr)
      else (case r of
              Inl err \<Rightarrow>
                (Threw err,
                 tr @ [Progress (checking_status (pollCount + 1)), Sleep 10000, CallGetVideosOperation operation])
            | Inr operation' \<Rightarrow>
                poll_loop operation' (pollCount + 1) rs
                  (tr @ [Progress (checking_status (pollCount + 1)), Sleep 10000,
                         CallGetVideosOperation operation])))"

text \<open>\<^verbatim>\<open>operation.response?.generatedVideos?.[0]?.video?.uri\<close>\<close>

definition downloadLink :: "operation \<Rightarrow> string option" where
  "downloadLink operation =
     (case op_response operation of
        None \<Rightarrow> None
      | Some r \<Rightarrow>
          (case generatedVideos r of
             None \<Rightarrow> None
           | Some gs \<Rightarrow>
               (case nth_opt gs 0 of
                  None \<Rightarrow> None
                | Some g \<Rightarrow>
                    (case gv_video g of
                       None \<Rightarrow> None
                     | Some v \<Rightarrow> uri v))))"

text \<open>Lines 95 to 102, after the loop has stopped on a snapshot.\<close>

definition finalize :: "env \<Rightarrow> operation \<Rightarrow> event list \<Rightarrow> string outcome \<times> event list" where
  "finalize e operation tr =
     (if \<not> truthy (downloadLink operation)
      then (Threw (Error no_download_link), tr @ [Progress finalizing])
      else (Returned (template (downloadLink operation) @ ''&key='' @ template (API_KEY e)),
            tr @ [Progress finalizing]))"

definition generateVideo :: "env \<Rightarrow> File \<Rightarrow> File \<Rightarrow> string \<Rightarrow> string outcome \<times> event list" where
  "generateVideo e startImageFile endImageFile prompt =
     (case getAiClient e of
        Inl err \<Rightarrow> (Threw err, [])
      | Inr ai \<Rightarrow>
          (case fileToGenerativePart e startImageFile of
             Inl err \<Rightarrow> (Threw err, [Progress preparing, ReadFile startImageFile])
           | Inr startPart \<Rightarrow>
               (case fileToGenerativePart e endImageFile of
                  Inl err \<Rightarrow>
                    (Threw err,
                     [Progress preparing, ReadFile startImageFile, ReadFile endImageFile])
                | Inr endPart \<Rightarrow>
                    (case generateVideos e
                            (video_request_of prompt startPart startImageFile endPart endImageFile) of
                       Inl err \<Rightarrow>
                         (Threw err,
                          [Progress preparing, ReadFile startImageFile, ReadFile endImageFile,
                           Progress initiating,
                           CallGenerateVideos
                             (video_request_of prompt startPart startImageFile endPart endImageFile)])
                     | Inr operation \<Rightarrow>
                         (case poll_loop operation 0 (getVideosOperation e)
                                 [Progress preparing, ReadFile startImageFile, ReadFile endImageFile,
                                  Progress initiating,
                                  CallGenerateVideos
                                    (video_request_of prompt startPart startImageFile endPart
                                       endImageFile),
                                  Progress in_progress] of
                            (Returned final, tr) \<Rightarrow> finalize e final tr
                          | (Threw err, tr) \<Rightarrow> (Threw err, tr)
                          | (Awaiting, tr) \<Rightarrow> (Awaiting, tr))))))"

subsection \<open>Reading a trace\<close>

fun progress_of :: "event list \<Rightarrow> string list" where
  "progress_of [] = []"
| "progress_of (Progress m # es) = m # progress_of es"
| "progress_of (_ # es) = progress_of es"

fun fetches_of :: "event list \<Rightarrow> operation list" where
  "fetches_of [] = []"
| "fetches_of (CallGetVideosOperation operation # es) = operation # fetches_of es"
| "fetches_of (_ # es) = fetches_of es"

fun reads_of :: "event list \<Rightarrow> File list" where
  "reads_of [] = []"
| "reads_of (ReadFile f # es) = f # reads_of es"
| "reads_of (_ # es) = reads_of es"

fun is_remote_call :: "event \<Rightarrow> bool" where
  "is_remote_call (CallGenerateContent _) = True"
| "is_remote_call (CallGenerateVideos _) = True"
| "is_remote_call (CallGetVideosOperation _) = True"
| "is_remote_call _ = False"

text \<open>The events of successive loop iterations that start at poll count \<open>k\<close>, one
  iteration for each snapshot of the list: the progress message, the wait, the fetch.\<close>

fun attempts :: "nat \<Rightarrow> operation list \<Rightarrow> event list" where
  "attempts k [] = []"
| "attempts k (operation # os) =
     [Progress (checking_status (k + 1)), Sleep 10000, CallGetVideosOperation operation]
       @ attempts (k + 1) os"

text \<open>The trace of \<^verbatim>\<open>generateVideo\<close> up to the loop.\<close>

definition submitted :: "File \<Rightarrow> File \<Rightarrow> video_request \<Rightarrow> event list" where
  "submitted startImageFile endImageFile request =
     [Progress preparing, ReadFile startImageFile, ReadFile endImageFile, Progress initiating,
      CallGenerateVideos request, Progress in_progress]"

subsection \<open>The specification's vocabulary\<close>

text \<open>The substring after the first comma of a string (empty when there is no comma).\<close>

definition after_first_comma :: "string \<Rightarrow> string" where
  "after_first_comma s = tl (dropWhile (\<lambda>x. x \<noteq> CHR '','') s)"

text \<open>The parts of a response: those of all its candidates, in order.\<close>

definition parts_of_candidate :: "candidate \<Rightarrow> part list" where
  "parts_of_candidate c =
     (case content c of
        None \<Rightarrow> []
      | Some ct \<Rightarrow> (case parts ct of None \<Rightarrow> [] | Some ps \<Rightarrow> ps))"


definition carries_image :: "part \<Rightarrow> bool" where
  "carries_image q = (part_inlineData q \<noteq> None)"

text \<open>The video URIs of all the \<^verbatim>\<open>generatedVideos\<close> entries of a snapshot.\<close>

definition uri_of_entry :: "generated_video \<Rightarrow> string list" where
  "uri_of_entry g =
     (case gv_video g of
        None \<Rightarrow> []
      | Some v \<Rightarrow> (case uri v of None \<Rightarrow> [] | Some u \<Rightarrow> [u]))"

definition video_uris :: "operation \<Rightarrow> string list" where
  "video_uris operation =
     (case op_response operation of
        None \<Rightarrow> []
      | Some r \<Rightarrow>
          (case generatedVideos r of None \<Rightarrow> [] | Some gs \<Rightarrow> concat (map uri_of_entry gs)))"

text \<open>The attempt count a checking-status message carries: the decimal number between
  \<^verbatim>\<open>Checking status (attempt\<close> and \<^verbatim>\<open>)... Please be patient.\<close>, when the message has this
  form.\<close>

definition digit_value :: "char \<Rightarrow> nat option" where
  "digit_value c =
     (let v = (of_char c :: nat) in if 48 \<le> v \<and> v \<le> 57 then Some (v - 48) else None)"

fun read_digits :: "nat \<Rightarrow> string \<Rightarrow> nat option" where
  "read_digits acc [] = Some acc"
| "read_digits acc (c # cs) =
     (case digit_value c of None \<Rightarrow> None | Some d \<Rightarrow> read_digits (acc * 10 + d) cs)"

definition read_decimal :: "string \<Rightarrow> nat option" where
  "read_decimal s = (if s = [] then None else read_digits 0 s)"

definition between :: "string \<Rightarrow> string \<Rightarrow> string \<Rightarrow> string option" where
  "between pre suf m =
     (if take (length pre) m = pre \<and> length pre + length suf \<le> length m
         \<and> drop (length m - length suf) m = suf
      then Some (take (length m - length pre - length suf) (drop (length pre) m))
      else None)"

definition attempt_of :: "string \<Rightarrow> nat option" where
  "attempt_of m =
     (case between ''Checking status (attempt '' '')... Please be patient.'' m of
        None \<Rightarrow> None
      | Some d \<Rightarrow> read_decimal d)"

subsection \<open>Scenarios\<close>

text \<open>The inputs of the scenarios of the specification: two small files, the snapshots of
  a job, and an environment whose remote service gives fixed answers.\<close>

definition frame_A :: File where
  "frame_A = \<lparr>file_type = ''image/png'', file_bytes = [137, 80, 78, 71]\<rparr>"

definition frame_B :: File where
  "frame_B = \<lparr>file_type = ''image/png'', file_bytes = [137, 80, 78, 71, 13]\<rparr>"

text \<open>A file whose declared type has a parameter with a comma in its value.\<close>

definition frame_C :: File where
  "frame_C = \<lparr>file_type = ''image/png;name=a,b'', file_bytes = [137, 80, 78, 71]\<rparr>"

definition part_A :: generative_part where
  "part_A = \<lparr>inlineData = \<lparr>data = Some ''iVBORw=='', mimeType = ''image/png''\<rparr>\<rparr>"

definition part_B :: generative_part where
  "part_B = \<lparr>inlineData = \<lparr>data = Some ''iVBORw0='', mimeType = ''image/png''\<rparr>\<rparr>"

definition running :: operation where
  "running = \<lparr>op_name = ''operations/video123'', op_done = Some False, op_response = None\<rparr>"

definition finished :: "generated_video list \<Rightarrow> operation" where
  "finished gs =
     \<lparr>op_name = ''operations/video123'', op_done = Some True,
      op_response = Some \<lparr>generatedVideos = Some gs\<rparr>\<rparr>"

definition video_at :: "string \<Rightarrow> generated_video" where
  "video_at u = \<lparr>gv_video = Some \<lparr>uri = Some u\<rparr>\<rparr>"

definition text_part :: "string \<Rightarrow> part" where
  "text_part t = \<lparr>part_inlineData = None, part_text = Some t\<rparr>"

definition image_part :: "string \<Rightarrow> part" where
  "image_part d =
     \<lparr>part_inlineData = Some \<lparr>blob_data = Some d, blob_mimeType = Some ''image/png''\<rparr>,
      part_text = None\<rparr>"

definition candidate_of :: "part list \<Rightarrow> candidate" where
  "candidate_of ps = \<lparr>content = Some \<lparr>parts = Some ps\<rparr>\<rparr>"

definition remote_env :: "string option \<Rightarrow> (error + content_response) \<Rightarrow> (error + operation)
    \<Rightarrow> (error + operation) list \<Rightarrow> env" where
  "remote_env key edited submission polls =
     \<lparr>API_KEY = key, readAsDataURL = browser_reader, generateContent = (\<lambda>_. edited),
      generateVideos = (\<lambda>_. submission), getVideosOperation = polls\<rparr>"

definition reader_env :: "read_outcome \<Rightarrow> env" where
  "reader_env r =
     \<lparr>API_KEY = Some ''K'', readAsDataURL = (\<lambda>_. r),
      generateContent = (\<lambda>_. Inl (RemoteError ''unavailable'')),
      generateVideos = (\<lambda>_. Inl (RemoteError ''unavailable'')), getVideosOperation = []\<rparr>"

section \<open>Lemmas\<close>

subsection \<open>Traces\<close>

lemma progress_of_append: "progress_of (xs @ ys) = progress_of xs @ progress_of ys"
  by (induction xs rule: progress_of.induct) simp_all

lemma fetches_of_append: "fetches_of (xs @ ys) = fetches_of xs @ fetches_of ys"
  by (induction xs rule: fetches_of.induct) simp_all

lemma progress_of_attempts:
  "progress_of (attempts k os) = map checking_status [Suc k ..< Suc k + length os]"
proof (induction os arbitrary: k)
  case Nil
  show ?case by simp
next
  case (Cons operation os)
  have "[Suc k ..< Suc k + length (operation # os)]
      = Suc k # [Suc (Suc k) ..< Suc k + length (operation # os)]"
    by (rule upt_conv_Cons) simp
  then have "[Suc k ..< Suc k + length (operation # os)]
      = Suc k # [Suc (Suc k) ..< Suc (Suc k) + length os]"
    by simp
  with Cons.IH [of "Suc k"] show ?case by simp
qed

lemma fetches_of_attempts: "fetches_of (attempts k os) = os"
  by (induction os arbitrary: k) simp_all

lemma progress_of_submitted: "progress_of (submitted s f req) = [preparing, initiating, in_progress]"
  by (simp add: submitted_def)

lemma fetches_of_submitted: "fetches_of (submitted s f req) = []"
  by (simp add: submitted_def)

text \<open>No poll message is one of the four other messages: they differ in the first letter
  or, for the first of them, the second.\<close>

lemma checking_status_other:
  "checking_status n \<noteq> preparing" "checking_status n \<noteq> initiating"
  "checking_status n \<noteq> in_progress" "checking_status n \<noteq> finalizing"
  by (simp_all add: checking_status_def preparing_def initiating_def in_progress_def finalizing_def)

subsection \<open>The attempt count of a message\<close>

lemma digit_value_digit: "d < 10 \<Longrightarrow> digit_value (digit d) = Some d"
  by (simp add: digit_value_def digit_def)

lemma read_digits_snoc:
  "d < 10 \<Longrightarrow> read_digits acc (cs @ [digit d])
     = (case read_digits acc cs of None \<Rightarrow> None | Some a \<Rightarrow> Some (a * 10 + d))"
  by (induction cs arbitrary: acc) (simp_all add: digit_value_digit split: option.splits)

lemma decimal_not_empty: "decimal n \<noteq> []"
  by (subst decimal.simps) simp

lemma read_digits_decimal: "read_digits 0 (decimal n) = Some n"
proof (induction n rule: decimal.induct)
  case (1 n)
  show ?case
  proof (cases "n < 10")
    case True
    then show ?thesis by (subst decimal.simps) (simp add: digit_value_digit)
  next
    case False
    with 1 have "read_digits 0 (decimal (n div 10)) = Some (n div 10)" by simp
    with False show ?thesis
      by (subst decimal.simps) (simp add: read_digits_snoc)
  qed
qed

lemma read_decimal_decimal: "read_decimal (decimal n) = Some n"
  by (simp add: read_decimal_def decimal_not_empty read_digits_decimal)

lemma between_append: "between pre suf (pre @ d @ suf) = Some d"
  by (simp add: between_def)

text \<open>The message of line 90 carries its poll count, so different counts give different
  messages.\<close>

lemma attempt_between:
  "(case between pre suf (pre @ decimal k @ suf) of None \<Rightarrow> None | Some d \<Rightarrow> read_decimal d)
     = Some k"
  by (simp add: between_append read_decimal_decimal)

lemma attempt_of_checking_status: "attempt_of (checking_status k) = Some k"
  unfolding attempt_of_def checking_status_def by (rule attempt_between)

lemma checking_status_inj: "checking_status j = checking_status k \<Longrightarrow> j = k"
proof -
  assume "checking_status j = checking_status k"
  then have "attempt_of (checking_status j) = attempt_of (checking_status k)"
    by (rule arg_cong)
  then show "j = k"
    by (simp only: attempt_of_checking_status option.inject)
qed

lemma checking_status_texts:
  "checking_status 1 = ''Checking status (attempt 1)... Please be patient.''"
  "checking_status 2 = ''Checking status (attempt 2)... Please be patient.''"
  by code_simp+

subsection \<open>The poll loop\<close>

lemma poll_loop_done:
  "is_done operation \<Longrightarrow> poll_loop operation k rs tr = (Returned operation, tr)"
  by (cases rs) simp_all

text \<open>Whatever the remote service answers, the loop appends whole iterations to the trace.\<close>

lemma poll_loop_trace: "\<exists>os. snd (poll_loop operation k rs tr) = tr @ attempts k os"
proof (induction rs arbitrary: operation k tr)
  case Nil
  show ?case
  proof (cases "is_done operation")
    case True
    then have "snd (poll_loop operation k [] tr) = tr @ attempts k []" by simp
    then show ?thesis by blast
  next
    case False
    then have "snd (poll_loop operation k [] tr) = tr @ attempts k [operation]" by simp
    then show ?thesis by blast
  qed
next
  case (Cons r rs)
  show ?case
  proof (cases "is_done operation")
    case True
    then have "snd (poll_loop operation k (r # rs) tr) = tr @ attempts k []" by simp
    then show ?thesis by blast
  next
    case pending: False
    show ?thesis
    proof (cases r)
      case (Inl err)
      with pending have "snd (poll_loop operation k (r # rs) tr) = tr @ attempts k [operation]"
        by simp
      then show ?thesis by blast
    next
      case (Inr operation')
      from Cons.IH [of operation' "k + 1" "tr @ attempts k [operation]"]
      obtain os where "snd (poll_loop operation' (k + 1) rs (tr @ attempts k [operation]))
          = (tr @ attempts k [operation]) @ attempts (k + 1) os" by blast
      with pending Inr
      have "snd (poll_loop operation k (r # rs) tr) = tr @ attempts k (operation # os)"
        by simp
      then show ?thesis by blast
    qed
  qed
qed

text \<open>The loop on a run of snapshots that are not done, followed by one that is.\<close>

lemma poll_loop_snapshots:
  "operation # rs = pending @ [d] \<Longrightarrow> \<forall>x\<in>set pending. \<not> is_done x \<Longrightarrow> is_done d \<Longrightarrow>
   poll_loop operation k (map Inr rs @ rest) tr = (Returned d, tr @ attempts k pending)"
proof (induction pending arbitrary: operation rs k tr)
  case Nil
  then show ?case by (simp add: poll_loop_done)
next
  case (Cons x pending)
  from Cons.prems(1) have x: "x = operation" and rs: "rs = pending @ [d]" by simp_all
  obtain operation' rs' where eq: "operation' # rs' = pending @ [d]"
    by (cases "pending @ [d]") auto
  with rs have rs': "rs = operation' # rs'" by simp
  from Cons.prems(2) x have first: "\<not> is_done operation"
    and others: "\<forall>x\<in>set pending. \<not> is_done x" by simp_all
  from Cons.IH [OF eq others Cons.prems(3)]
  have "poll_loop operation' (k + 1) (map Inr rs' @ rest) (tr @ attempts k [operation])
      = (Returned d, (tr @ attempts k [operation]) @ attempts (k + 1) pending)" .
  with first rs' x show ?case by simp
qed

text \<open>The loop on a run of snapshots that are not done, followed by a rejected fetch.\<close>

lemma poll_loop_rejected:
  "\<forall>x\<in>set (operation # pending). \<not> is_done x \<Longrightarrow>
   poll_loop operation k (map Inr pending @ Inl err # rest) tr
     = (Threw err, tr @ attempts k (operation # pending))"
proof (induction pending arbitrary: operation k tr)
  case Nil
  then show ?case by simp
next
  case (Cons x pending)
  then have first: "\<not> is_done operation" and others: "\<forall>y\<in>set (x # pending). \<not> is_done y"
    by simp_all
  from Cons.IH [OF others]
  have "poll_loop x (k + 1) (map Inr pending @ Inl err # rest) (tr @ attempts k [operation])
      = (Threw err, (tr @ attempts k [operation]) @ attempts (k + 1) (x # pending))" .
  with first show ?case by simp
qed

text \<open>The fetches the loop issues, when every fetch is answered with a snapshot.\<close>

lemma poll_loop_fetches:
  "fetches_of (snd (poll_loop operation k (map Inr rs) tr))
     = fetches_of tr @ takeWhile (\<lambda>x. \<not> is_done x) (operation # rs)"
proof (induction rs arbitrary: operation k tr)
  case Nil
  show ?case by (simp add: fetches_of_append)
next
  case (Cons r rs)
  show ?case
  proof (cases "is_done operation")
    case True
    then show ?thesis by simp
  next
    case False
    with Cons.IH [of r "k + 1"] show ?thesis by (simp add: fetches_of_append)
  qed
qed

subsection \<open>\<^verbatim>\<open>generateVideo\<close> up to the loop\<close>

lemma truthy_client: "getAiClient e = Inr key \<Longrightarrow> API_KEY e = Some key \<and> key \<noteq> []"
  by (auto simp: getAiClient_def split: option.splits if_splits)

lemma generateVideo_submitted:
  assumes "getAiClient e = Inr key"
    and "fileToGenerativePart e s = Inr sp"
    and "fileToGenerativePart e f = Inr ep"
    and "generateVideos e (video_request_of p sp s ep f) = Inr operation"
  shows "generateVideo e s f p =
     (case poll_loop operation 0 (getVideosOperation e)
             (submitted s f (video_request_of p sp s ep f)) of
        (Returned final, tr) \<Rightarrow> finalize e final tr
      | (Threw err, tr) \<Rightarrow> (Threw err, tr)
      | (Awaiting, tr) \<Rightarrow> (Awaiting, tr))"
  using assms by (simp add: generateVideo_def submitted_def)

lemma generateVideo_done:
  assumes "getAiClient e = Inr key"
    and "fileToGenerativePart e s = Inr sp"
    and "fileToGenerativePart e f = Inr ep"
    and "generateVideos e (video_request_of p sp s ep f) = Inr operation"
    and "getVideosOperation e = map Inr rs @ rest"
    and "operation # rs = pending @ [d]"
    and "\<forall>x\<in>set pending. \<not> is_done x"
    and "is_done d"
  shows "generateVideo e s f p =
     finalize e d (submitted s f (video_request_of p sp s ep f) @ attempts 0 pending)"
  using generateVideo_submitted [OF assms(1-4)] poll_loop_snapshots [OF assms(6-8)] assms(5)
  by simp

lemma snd_finalize: "snd (finalize e d tr) = tr @ [Progress finalizing]"
  by (simp add: finalize_def)

text \<open>When the call returns, its trace is the submission, whole iterations of the loop,
  and the last message.\<close>

lemma generateVideo_Returned:
  assumes "fst (generateVideo e s f p) = Returned url"
  shows "\<exists>req os. snd (generateVideo e s f p) = submitted s f req @ attempts 0 os @ [Progress finalizing]"
proof -
  from assms obtain key sp ep operation
    where ok: "getAiClient e = Inr key" "fileToGenerativePart e s = Inr sp"
      "fileToGenerativePart e f = Inr ep"
      "generateVideos e (video_request_of p sp s ep f) = Inr operation"
    by (auto simp: generateVideo_def split: sum.splits)
  let ?req = "video_request_of p sp s ep f"
  let ?loop = "poll_loop operation 0 (getVideosOperation e) (submitted s f ?req)"
  obtain out tr where loop: "?loop = (out, tr)" by (cases ?loop)
  from poll_loop_trace [of operation 0 "getVideosOperation e" "submitted s f ?req"] loop
  obtain os where tr: "tr = submitted s f ?req @ attempts 0 os" by auto
  from assms generateVideo_submitted [OF ok] loop obtain final where "out = Returned final"
    by (cases out) simp_all
  with generateVideo_submitted [OF ok] loop tr
  have "snd (generateVideo e s f p) = submitted s f ?req @ attempts 0 os @ [Progress finalizing]"
    by (simp add: snd_finalize)
  then show ?thesis by blast
qed

subsection \<open>Base64\<close>

lemma of_char_char_of: "n < 256 \<Longrightarrow> (of_char (char_of n) :: nat) = n"
  by simp

lemma b64_index_char: "i < 64 \<Longrightarrow> b64_index (b64_char i) = Some i"
  unfolding b64_index_def b64_char_def Let_def
  by (simp add: of_char_char_of) arith

lemma b64_index_other: "b64_index CHR ''='' = None" "b64_index CHR '','' = None"
  by (simp_all add: b64_index_def)

lemma b64_char_not_pad: "i < 64 \<Longrightarrow> b64_char i \<noteq> CHR ''=''"
  using b64_index_char [of i] b64_index_other(1) by auto

lemma b64_char_not_comma: "i < 64 \<Longrightarrow> b64_char i \<noteq> CHR '',''"
  using b64_index_char [of i] b64_index_other(2) by auto

lemma div_mult_add: "r < m \<Longrightarrow> (q * m + r) div m = (q::nat)"
  by simp

lemma mod_mult_add: "r < m \<Longrightarrow> (q * m + r) mod m = (r::nat)"
  by simp

lemma scaled_bound: "x < p \<Longrightarrow> y < m \<Longrightarrow> x * m + y < p * (m::nat)"
proof -
  assume x: "x < p" and y: "y < m"
  from x have "Suc x \<le> p" by simp
  then have "Suc x * m \<le> p * m" by (rule mult_le_mono1)
  with y show ?thesis by simp
qed

lemma sextets_bound:
  fixes a b c :: nat
  assumes "b < 256" "c < 256"
  shows "(a mod 4) * 16 + b div 16 < 64 \<and> (b mod 16) * 4 + c div 64 < 64"
proof -
  from assms have b: "b div 16 < 16" and c: "c div 64 < 4"
    by (simp_all add: less_mult_imp_div_less)
  have "a mod 4 < 4" "b mod 16 < 16" by simp_all
  with b c show ?thesis
    using scaled_bound [of "a mod 4" 4 "b div 16" 16] scaled_bound [of "b mod 16" 16 "c div 64" 4]
    by simp
qed

lemma octets_sextets:
  fixes a b c :: nat
  assumes "b < 256" "c < 256"
  shows "(a div 4) * 4 + ((a mod 4) * 16 + b div 16) div 16 = a
    \<and> (((a mod 4) * 16 + b div 16) mod 16) * 16 + ((b mod 16) * 4 + c div 64) div 4 = b
    \<and> (((b mod 16) * 4 + c div 64) mod 4) * 64 + c mod 64 = c"
proof (intro conjI)
  from assms have b: "b div 16 < 16" and c: "c div 64 < 4"
    by (simp_all add: less_mult_imp_div_less)
  show "(a div 4) * 4 + ((a mod 4) * 16 + b div 16) div 16 = a"
    by (simp only: div_mult_add [OF b] div_mult_mod_eq)
  show "(((a mod 4) * 16 + b div 16) mod 16) * 16 + ((b mod 16) * 4 + c div 64) div 4 = b"
    by (simp only: mod_mult_add [OF b] div_mult_add [OF c] div_mult_mod_eq)
  show "(((b mod 16) * 4 + c div 64) mod 4) * 64 + c mod 64 = c"
    by (simp only: mod_mult_add [OF c] div_mult_mod_eq)
qed

lemma unat_byte: "unat (a::byte) < 256"
  using unsigned_less [of a] by simp

lemma sextets_unat:
  "\<forall>i\<in>set (sextets (unat (a::byte)) (unat (b::byte)) (unat (c::byte))). i < 64"
  using sextets_bound [where a = "unat a" and b = "unat b" and c = "unat c"]
    unat_byte [of a] unat_byte [of b] unat_byte [of c]
  by (simp add: sextets_def less_mult_imp_div_less)

lemma octets_sextets_unat:
  "map of_nat (octets (unat a div 4) ((unat a mod 4) * 16 + unat b div 16)
      ((unat b mod 16) * 4 + unat c div 64) (unat c mod 64)) = [a, b, c :: byte]"
  using octets_sextets [where a = "unat a" and b = "unat b" and c = "unat c"]
    unat_byte [of b] unat_byte [of c]
  by (simp add: octets_def)

text \<open>Decoding undoes encoding.\<close>

lemma base64_roundtrip: "base64_decode (base64_encode bs) = Some bs"
proof (induction bs rule: base64_encode.induct)
  case 1
  show ?case by simp
next
  case (2 a)
  have s: "\<forall>i\<in>set (sextets (unat a) 0 0). i < 64"
    using sextets_unat [of a 0 0] by simp
  have o: "map of_nat (octets (unat a div 4) ((unat a mod 4) * 16) 0 0) = [a, 0, 0 :: byte]"
    using octets_sextets_unat [of a 0 0] by simp
  from s o show ?case
    by (simp add: sextets_def b64_index_char octets_def)
next
  case (3 a b)
  have s: "\<forall>i\<in>set (sextets (unat a) (unat b) 0). i < 64"
    using sextets_unat [of a b 0] by simp
  have o: "map of_nat (octets (unat a div 4) ((unat a mod 4) * 16 + unat b div 16)
      ((unat b mod 16) * 4) 0) = [a, b, 0 :: byte]"
    using octets_sextets_unat [of a b 0] by simp
  from s o show ?case
    by (simp add: sextets_def b64_index_char b64_char_not_pad octets_def)
next
  case (4 a b c bs)
  note s = sextets_unat [of a b c]
  note o = octets_sextets_unat [of a b c]
  from s o "4.IH" show ?case
    by (simp add: sextets_def b64_index_char b64_char_not_pad)
qed

lemma b64_chars_no_comma: "\<forall>i\<in>set xs. i < 64 \<Longrightarrow> CHR '','' \<notin> set (map b64_char xs)"
  using b64_char_not_comma by fastforce

text \<open>The encoding has no comma.\<close>

lemma base64_no_comma: "CHR '','' \<notin> set (base64_encode bs)"
proof (induction bs rule: base64_encode.induct)
  case 1
  show ?case by simp
next
  case (2 a)
  have "CHR '','' \<notin> set (map b64_char (take 2 (sextets (unat a) 0 0)))"
    using sextets_unat [of a 0 0] by (intro b64_chars_no_comma) (auto dest: in_set_takeD)
  then show ?case by simp
next
  case (3 a b)
  have "CHR '','' \<notin> set (map b64_char (take 3 (sextets (unat a) (unat b) 0)))"
    using sextets_unat [of a b 0] by (intro b64_chars_no_comma) (auto dest: in_set_takeD)
  then show ?case by simp
next
  case (4 a b c bs)
  have "CHR '','' \<notin> set (map b64_char (sextets (unat a) (unat b) (unat c)))"
    using sextets_unat [of a b c] by (intro b64_chars_no_comma)
  with 4 show ?case by simp
qed

subsection \<open>Splitting a string\<close>

lemma split_on_no_separator: "c \<notin> set s \<Longrightarrow> split_on c s = [s]"
  by (induction s) auto

lemma split_on_first: "c \<notin> set h \<Longrightarrow> split_on c (h @ c # d) = h # split_on c d"
  by (induction h) auto

lemma split_on_head: "\<exists>rest. split_on c s = takeWhile (\<lambda>x. x \<noteq> c) s # rest"
  by (induction s) (auto split: list.splits)

text \<open>\<^verbatim>\<open>s.split(c)[1]\<close>: what stands between the first separator and the second.\<close>

lemma split_on_second:
  "nth_opt (split_on c s) (Suc 0) =
     (if c \<in> set s then Some (takeWhile (\<lambda>x. x \<noteq> c) (tl (dropWhile (\<lambda>x. x \<noteq> c) s)))
      else None)"
proof (cases "c \<in> set s")
  case False
  then show ?thesis by (simp add: split_on_no_separator)
next
  case True
  then obtain h d where s: "s = h @ c # d" and h: "c \<notin> set h"
    by (auto dest: split_list_first)
  from h have "dropWhile (\<lambda>x. x \<noteq> c) (h @ c # d) = c # d"
    by (induction h) auto
  moreover obtain rest where "split_on c d = takeWhile (\<lambda>x. x \<noteq> c) d # rest"
    using split_on_head by blast
  ultimately show ?thesis using True s h by (simp add: split_on_first)
qed

subsection \<open>\<^verbatim>\<open>editImage\<close> up to the response\<close>

lemma editImage_response:
  assumes "getAiClient e = Inr key"
    and "fileToGenerativePart e f = Inr ip"
    and "generateContent e (edit_request ip p) = Inr r"
  shows "editImage e f p = (first_image r, [ReadFile f, CallGenerateContent (edit_request ip p)])"
  using assms by (simp add: editImage_def)

lemma scan_parts_none: "\<forall>q\<in>set ps. \<not> carries_image q \<Longrightarrow> scan_parts ps = None"
  by (induction ps) (simp_all add: carries_image_def)


lemma nth_opt_zero: "nth_opt xs 0 = (case xs of [] \<Rightarrow> None | x # _ \<Rightarrow> Some x)"
  by (cases xs) simp_all

lemma downloadLink_Some: "downloadLink d = Some u \<Longrightarrow> u \<in> set (video_uris d)"
  by (auto simp: video_uris_def downloadLink_def uri_of_entry_def nth_opt_zero
      split: option.splits list.splits)

lemma downloadLink_no_uri: "video_uris d = [] \<Longrightarrow> \<not> truthy (downloadLink d)"
  using downloadLink_Some [of d] by (cases "downloadLink d") simp_all

subsection \<open>The scenarios\<close>

lemma scenario_client: "getAiClient (remote_env (Some ''K'') edited submission polls) = Inr ''K''"
  by (simp add: getAiClient_def remote_env_def)

lemma scenario_data:
  "nth_opt (split_on CHR '','' (data_url frame_A)) (Suc 0) = Some ''iVBORw==''"
  "nth_opt (split_on CHR '','' (data_url frame_B)) (Suc 0) = Some ''iVBORw0=''"
  "file_type frame_A = ''image/png''"
  "file_type frame_B = ''image/png''"
  by code_simp+

lemma scenario_part_A:
  "fileToGenerativePart (remote_env key edited submission polls) frame_A = Inr part_A"
  by (simp add: fileToGenerativePart_def remote_env_def browser_reader_def part_A_def
      scenario_data)

lemma scenario_part_B:
  "fileToGenerativePart (remote_env key edited submission polls) frame_B = Inr part_B"
  by (simp add: fileToGenerativePart_def remote_env_def browser_reader_def part_B_def
      scenario_data)

lemma scenario_submission:
  "generateVideos (remote_env key edited submission polls) req = submission"
  "getVideosOperation (remote_env key edited submission polls) = polls"
  "generateContent (remote_env key edited submission polls) creq = edited"
  "API_KEY (remote_env key edited submission polls) = key"
  by (simp_all add: remote_env_def)

lemma scenario_snapshots:
  "\<not> is_done running" "is_done (finished gs)"
  by (simp_all add: is_done_def running_def finished_def)

section \<open>The claims\<close>

text \<open>
  C4. With no credential configured (\<^verbatim>\<open>process.env.API_KEY\<close> absent or empty), both
  \<^verbatim>\<open>editImage\<close> and \<^verbatim>\<open>generateVideo\<close> fail with the error of \<^verbatim>\<open>getAiClient\<close>, and their
  traces are empty: no file has been read and no remote call has been issued (nor any
  progress message emitted).
\<close>

theorem no_credential_fails_first:
  assumes "\<not> truthy (API_KEY e)"
  shows "editImage e imageFile prompt = (Inl (Error api_key_missing), [])
    \<and> generateVideo e startImageFile endImageFile prompt = (Threw (Error api_key_missing), [])
    \<and> reads_of (snd (editImage e imageFile prompt)) = []
    \<and> reads_of (snd (generateVideo e startImageFile endImageFile prompt)) = []
    \<and> filter is_remote_call (snd (editImage e imageFile prompt)) = []
    \<and> filter is_remote_call (snd (generateVideo e startImageFile endImageFile prompt)) = []"
proof -
  from assms have "getAiClient e = Inl (Error api_key_missing)"
    by (cases "API_KEY e") (simp_all add: getAiClient_def)
  then show ?thesis by (simp add: editImage_def generateVideo_def)
qed

theorem no_credential_fails_first_witness:
  "\<not> truthy (API_KEY (remote_env None (Inr \<lparr>candidates = None\<rparr>) (Inr running) []))
   \<and> editImage (remote_env None (Inr \<lparr>candidates = None\<rparr>) (Inr running) []) frame_A
         ''sunrise time-lapse''
       = (Inl (Error api_key_missing), [])
   \<and> generateVideo (remote_env None (Inr \<lparr>candidates = None\<rparr>) (Inr running) []) frame_A frame_B
         ''sunrise time-lapse''
       = (Threw (Error api_key_missing), [])"
proof -
  have h: "\<not> truthy (API_KEY (remote_env None (Inr \<lparr>candidates = None\<rparr>) (Inr running) []))"
    by (simp add: remote_env_def)
  from no_credential_fails_first [OF h, where imageFile = frame_A and startImageFile = frame_A
      and endImageFile = frame_B] h
  show ?thesis by simp
qed

text \<open>
  C1. The poll loop of \<^verbatim>\<open>generateVideo\<close>, for every sequence of snapshots the remote
  service answers the status fetches with: the fetches issued are, in order, exactly those
  for the snapshots of the longest initial run of snapshots that are not done, the
  submission's snapshot first. So each snapshot observed with \<^verbatim>\<open>done\<close> false is followed
  by another fetch, and no fetch is issued once a snapshot with \<^verbatim>\<open>done\<close> true has been
  observed.
\<close>

theorem generateVideo_poll_invariant:
  assumes "getAiClient e = Inr key"
    and "fileToGenerativePart e s = Inr sp"
    and "fileToGenerativePart e f = Inr ep"
    and "generateVideos e (video_request_of p sp s ep f) = Inr operation"
    and "getVideosOperation e = map Inr snapshots"
  shows "fetches_of (snd (generateVideo e s f p))
    = takeWhile (\<lambda>x. \<not> is_done x) (operation # snapshots)"
proof -
  let ?req = "video_request_of p sp s ep f"
  let ?loop = "poll_loop operation 0 (map Inr snapshots) (submitted s f ?req)"
  have "fetches_of (snd (generateVideo e s f p)) = fetches_of (snd ?loop)"
  proof (cases ?loop)
    case (Pair out tr)
    with generateVideo_submitted [OF assms(1-4)] assms(5) show ?thesis
      by (cases out) (simp_all add: snd_finalize fetches_of_append)
  qed
  also have "\<dots> = takeWhile (\<lambda>x. \<not> is_done x) (operation # snapshots)"
    by (simp only: poll_loop_fetches fetches_of_submitted append_Nil)
  finally show ?thesis .
qed

theorem generateVideo_poll_invariant_witness:
  "fetches_of (snd (generateVideo
      (remote_env (Some ''K'') (Inr \<lparr>candidates = None\<rparr>) (Inr running)
         (map Inr [running, finished [video_at ''https://example/video123''], running]))
      frame_A frame_B ''sunrise time-lapse''))
   = [running, running]"
proof -
  let ?e = "remote_env (Some ''K'') (Inr \<lparr>candidates = None\<rparr>) (Inr running)
    (map Inr [running, finished [video_at ''https://example/video123''], running])"
  have "fetches_of (snd (generateVideo ?e frame_A frame_B ''sunrise time-lapse''))
    = takeWhile (\<lambda>x. \<not> is_done x)
        (running # [running, finished [video_at ''https://example/video123''], running])"
    by (rule generateVideo_poll_invariant
        [OF scenario_client scenario_part_A scenario_part_B scenario_submission(1)
          scenario_submission(2)])
  then show ?thesis by (simp add: scenario_snapshots)
qed

text \<open>
  C2. For every run of \<^verbatim>\<open>generateVideo\<close> that returns, the progress callback has received
  "Preparing images for video generation...", then "Initiating video generation with Veo
  model...", then "Video generation in progress... This may take a few minutes.", then
  the checking-status messages of line 90 for the poll counts \<open>1, 2, \<dots>, n\<close> in this
  order, one for each fetch of the run (\<open>n\<close> may be \<open>0\<close>), then "Finalizing video...".
  The attempt counts read back from the checking-status messages are \<open>1, 2, \<dots>, n\<close>:
  they start at 1 and increase strictly. Each of the four other messages occurs exactly
  once.
\<close>

theorem generateVideo_progress_order:
  assumes "fst (generateVideo e s f p) = Returned url"
  shows "progress_of (snd (generateVideo e s f p))
      = [''Preparing images for video generation...'',
         ''Initiating video generation with Veo model...'',
         ''Video generation in progress... This may take a few minutes.'']
        @ map checking_status [1 ..< Suc (length (fetches_of (snd (generateVideo e s f p))))]
        @ [''Finalizing video...'']
    \<and> map attempt_of
        (map checking_status [1 ..< Suc (length (fetches_of (snd (generateVideo e s f p))))])
      = map Some [1 ..< Suc (length (fetches_of (snd (generateVideo e s f p))))]
    \<and> map (count_list (progress_of (snd (generateVideo e s f p))))
        [''Preparing images for video generation...'',
         ''Initiating video generation with Veo model...'',
         ''Video generation in progress... This may take a few minutes.'',
         ''Finalizing video...''] = [1, 1, 1, 1]"
proof -
  from generateVideo_Returned [OF assms] obtain req os
    where tr: "snd (generateVideo e s f p) = submitted s f req @ attempts 0 os @ [Progress finalizing]"
    by blast
  have fetched: "fetches_of (snd (generateVideo e s f p)) = os"
    by (simp add: tr fetches_of_append fetches_of_submitted fetches_of_attempts)
  have messages: "progress_of (snd (generateVideo e s f p))
      = [preparing, initiating, in_progress] @ map checking_status [1 ..< Suc (length os)] @ [finalizing]"
    by (simp add: tr progress_of_append progress_of_submitted progress_of_attempts)
  have counts: "map attempt_of (map checking_status ns) = map Some ns" for ns
    by (simp add: attempt_of_checking_status)
  have polls: "count_list (map checking_status ns) m = 0"
    if "m \<in> {preparing, initiating, in_progress, finalizing}" for ns m
    using that checking_status_other by (induction ns) auto
  have distinct: "distinct [preparing, initiating, in_progress, finalizing]"
    by (simp add: preparing_def initiating_def in_progress_def finalizing_def)
  have once: "map (count_list (progress_of (snd (generateVideo e s f p))))
        [preparing, initiating, in_progress, finalizing] = [1, 1, 1, 1]"
    using distinct by (auto simp add: messages polls)
  show ?thesis
    unfolding fetched
  proof (intro conjI)
    show "progress_of (snd (generateVideo e s f p))
      = [''Preparing images for video generation...'',
         ''Initiating video generation with Veo model...'',
         ''Video generation in progress... This may take a few minutes.'']
        @ map checking_status [1 ..< Suc (length os)] @ [''Finalizing video...'']"
      using messages unfolding preparing_def initiating_def in_progress_def finalizing_def .
    show "map attempt_of (map checking_status [1 ..< Suc (length os)])
      = map Some [1 ..< Suc (length os)]"
      by (rule counts)
    show "map (count_list (progress_of (snd (generateVideo e s f p))))
        [''Preparing images for video generation...'',
         ''Initiating video generation with Veo model...'',
         ''Video generation in progress... This may take a few minutes.'',
         ''Finalizing video...''] = [1, 1, 1, 1]"
      using once unfolding preparing_def initiating_def in_progress_def finalizing_def .
  qed
qed

theorem generateVideo_progress_order_witness:
  "fst (generateVideo
      (remote_env (Some ''K'') (Inr \<lparr>candidates = None\<rparr>) (Inr running)
         [Inr running, Inr (finished [video_at ''https://example/video123''])])
      frame_A frame_B ''sunrise time-lapse'') = Returned ''https://example/video123&key=K''
   \<and> progress_of (snd (generateVideo
      (remote_env (Some ''K'') (Inr \<lparr>candidates = None\<rparr>) (Inr running)
         [Inr running, Inr (finished [video_at ''https://example/video123''])])
      frame_A frame_B ''sunrise time-lapse''))
     = [''Preparing images for video generation...'',
        ''Initiating video generation with Veo model...'',
        ''Video generation in progress... This may take a few minutes.'',
        ''Checking status (attempt 1)... Please be patient.'',
        ''Checking status (attempt 2)... Please be patient.'',
        ''Finalizing video...'']
   \<and> map attempt_of
        [''Checking status (attempt 1)... Please be patient.'',
         ''Checking status (attempt 2)... Please be patient.''] = [Some 1, Some 2]"
proof -
  let ?e = "remote_env (Some ''K'') (Inr \<lparr>candidates = None\<rparr>) (Inr running)
    [Inr running, Inr (finished [video_at ''https://example/video123''])]"
  have run: "generateVideo ?e frame_A frame_B ''sunrise time-lapse''
    = finalize ?e (finished [video_at ''https://example/video123''])
        (submitted frame_A frame_B (video_request_of ''sunrise time-lapse'' part_A frame_A part_B frame_B)
         @ attempts 0 [running, running])"
    by (rule generateVideo_done [OF scenario_client scenario_part_A scenario_part_B
          scenario_submission(1), where rs = "[running, finished [video_at ''https://example/video123'']]"
          and rest = "[]"])
      (simp_all add: scenario_submission scenario_snapshots)
  have returned: "fst (generateVideo ?e frame_A frame_B ''sunrise time-lapse'')
    = Returned ''https://example/video123&key=K''"
    unfolding run
    by (simp add: finalize_def downloadLink_def finished_def video_at_def scenario_submission)
  have fetched: "fetches_of (snd (generateVideo ?e frame_A frame_B ''sunrise time-lapse''))
    = [running, running]"
    unfolding run by (simp add: snd_finalize fetches_of_append fetches_of_submitted)
  have upt: "[1 ..< Suc (length [running, running])] = [1, 2]"
    by (simp add: upt_rec)
  note claim = generateVideo_progress_order [OF returned, unfolded fetched upt]
  have order: "progress_of (snd (generateVideo ?e frame_A frame_B ''sunrise time-lapse''))
    = [''Preparing images for video generation...'',
       ''Initiating video generation with Veo model...'',
       ''Video generation in progress... This may take a few minutes.'',
       ''Checking status (attempt 1)... Please be patient.'',
       ''Checking status (attempt 2)... Please be patient.'',
       ''Finalizing video...'']"
    using claim [THEN conjunct1]
    by (simp only: list.map checking_status_texts append_Cons append_Nil)
  have counts: "map attempt_of
        [''Checking status (attempt 1)... Please be patient.'',
         ''Checking status (attempt 2)... Please be patient.''] = [Some 1, Some 2]"
    using claim [THEN conjunct2, THEN conjunct1]
    by (simp only: list.map checking_status_texts)
  from returned order counts show ?thesis by (intro conjI)
qed

text \<open>
  C6. If the loop stops on a snapshot that reports \<^verbatim>\<open>done\<close> true and none of whose
  \<^verbatim>\<open>generatedVideos\<close> entries has a video URI, \<^verbatim>\<open>generateVideo\<close> fails with the error
  "Video generation completed, but no download link was found."; the finalizing message
  is the last event of the trace, so it has been emitted before the failure.
\<close>

theorem generateVideo_done_without_uri:
  assumes "getAiClient e = Inr key"
    and "fileToGenerativePart e s = Inr sp"
    and "fileToGenerativePart e f = Inr ep"
    and "generateVideos e (video_request_of p sp s ep f) = Inr operation"
    and "getVideosOperation e = map Inr rs @ rest"
    and "operation # rs = pending @ [d]"
    and "\<forall>x\<in>set pending. \<not> is_done x"
    and "is_done d"
    and "video_uris d = []"
  shows "fst (generateVideo e s f p) = Threw (Error no_download_link)
    \<and> snd (generateVideo e s f p)
        = submitted s f (video_request_of p sp s ep f) @ attempts 0 pending @ [Progress finalizing]
    \<and> last (snd (generateVideo e s f p)) = Progress finalizing"
proof -
  have "generateVideo e s f p
      = finalize e d (submitted s f (video_request_of p sp s ep f) @ attempts 0 pending)"
    by (rule generateVideo_done [OF assms(1-8)])
  moreover from assms(9) have "\<not> truthy (downloadLink d)"
    by (rule downloadLink_no_uri)
  ultimately show ?thesis by (simp add: finalize_def)
qed

theorem generateVideo_done_without_uri_witness:
  "generateVideo
      (remote_env (Some ''K'') (Inr \<lparr>candidates = None\<rparr>) (Inr running)
         [Inr running, Inr (finished [])])
      frame_A frame_B ''sunrise time-lapse''
   = (Threw (Error no_download_link),
      submitted frame_A frame_B
        (video_request_of ''sunrise time-lapse'' part_A frame_A part_B frame_B)
      @ attempts 0 [running, running] @ [Progress finalizing])"
proof -
  let ?e = "remote_env (Some ''K'') (Inr \<lparr>candidates = None\<rparr>) (Inr running)
    [Inr running, Inr (finished [])]"
  have polls: "getVideosOperation ?e = map Inr [running, finished []] @ []"
    by (simp add: scenario_submission)
  have snapshots: "running # [running, finished []] = [running, running] @ [finished []]"
    by simp
  have pending: "\<forall>x\<in>set [running, running]. \<not> is_done x"
    by (simp add: scenario_snapshots)
  have no_uri: "video_uris (finished []) = []"
    by (simp add: video_uris_def finished_def)
  from generateVideo_done_without_uri
    [OF scenario_client scenario_part_A scenario_part_B scenario_submission(1) polls snapshots
      pending scenario_snapshots(2) no_uri]
  show ?thesis by (simp add: prod_eq_iff)
qed

text \<open>
  C7. A rejected remote call ends \<^verbatim>\<open>generateVideo\<close> with the rejection, and the rejected
  call is the last event of the trace. When the submission is rejected, the progress
  messages are the preparing and the initiating message only: no checking-status message
  and no fetch. When a fetch is rejected, after any number of snapshots that are not
  done, each of these snapshots has been fetched once, the rejected fetch is the last of
  them, and whatever the remote service would have answered later plays no part.
\<close>

theorem generateVideo_remote_failure:
  assumes "getAiClient e = Inr key"
    and "fileToGenerativePart e s = Inr sp"
    and "fileToGenerativePart e f = Inr ep"
  shows "(\<forall>err. generateVideos e (video_request_of p sp s ep f) = Inl err \<longrightarrow>
        fst (generateVideo e s f p) = Threw err
      \<and> snd (generateVideo e s f p)
          = [Progress preparing, ReadFile s, ReadFile f, Progress initiating,
             CallGenerateVideos (video_request_of p sp s ep f)]
      \<and> progress_of (snd (generateVideo e s f p)) = [preparing, initiating]
      \<and> (\<forall>n. checking_status n \<notin> set (progress_of (snd (generateVideo e s f p))))
      \<and> fetches_of (snd (generateVideo e s f p)) = [])
    \<and> (\<forall>operation pending err rest.
        generateVideos e (video_request_of p sp s ep f) = Inr operation
        \<and> (\<forall>x\<in>set (operation # pending). \<not> is_done x)
        \<and> getVideosOperation e = map Inr pending @ Inl err # rest \<longrightarrow>
        fst (generateVideo e s f p) = Threw err
      \<and> snd (generateVideo e s f p)
          = submitted s f (video_request_of p sp s ep f) @ attempts 0 (operation # pending)
      \<and> fetches_of (snd (generateVideo e s f p)) = operation # pending
      \<and> last (snd (generateVideo e s f p)) = CallGetVideosOperation (last (operation # pending)))"
proof (intro conjI allI impI)
  fix err
  assume "generateVideos e (video_request_of p sp s ep f) = Inl err"
  with assms have run: "generateVideo e s f p
      = (Threw err, [Progress preparing, ReadFile s, ReadFile f, Progress initiating,
           CallGenerateVideos (video_request_of p sp s ep f)])"
    by (simp add: generateVideo_def)
  show "fst (generateVideo e s f p) = Threw err" by (simp add: run)
  show "snd (generateVideo e s f p)
      = [Progress preparing, ReadFile s, ReadFile f, Progress initiating,
         CallGenerateVideos (video_request_of p sp s ep f)]" by (simp add: run)
  show "progress_of (snd (generateVideo e s f p)) = [preparing, initiating]" by (simp add: run)
  show "checking_status n \<notin> set (progress_of (snd (generateVideo e s f p)))" for n
    using checking_status_other [of n] by (simp add: run)
  show "fetches_of (snd (generateVideo e s f p)) = []" by (simp add: run)
next
  fix operation pending err rest
  assume h: "generateVideos e (video_request_of p sp s ep f) = Inr operation
    \<and> (\<forall>x\<in>set (operation # pending). \<not> is_done x)
    \<and> getVideosOperation e = map Inr pending @ Inl err # rest"
  then have pending: "\<forall>x\<in>set (operation # pending). \<not> is_done x" by blast
  from h generateVideo_submitted [OF assms, of p operation] poll_loop_rejected [OF pending]
  have run: "generateVideo e s f p
      = (Threw err, submitted s f (video_request_of p sp s ep f) @ attempts 0 (operation # pending))"
    by simp
  have ends: "last (attempts k (x # xs)) = CallGetVideosOperation (last (x # xs))" for k x xs
    by (induction xs arbitrary: k x) simp_all
  show "fst (generateVideo e s f p) = Threw err" by (simp add: run)
  show "snd (generateVideo e s f p)
      = submitted s f (video_request_of p sp s ep f) @ attempts 0 (operation # pending)"
    by (simp add: run)
  show "fetches_of (snd (generateVideo e s f p)) = operation # pending"
    using fetches_of_attempts [of 0 "operation # pending"]
    by (simp add: run fetches_of_append fetches_of_submitted del: attempts.simps)
  have issued: "attempts 0 (operation # pending) \<noteq> []" by simp
  show "last (snd (generateVideo e s f p)) = CallGetVideosOperation (last (operation # pending))"
    unfolding run snd_conv last_appendR [OF issued] by (rule ends)
qed

theorem generateVideo_remote_failure_witness:
  "generateVideo
      (remote_env (Some ''K'') (Inr \<lparr>candidates = None\<rparr>) (Inl (RemoteError ''quota exceeded'')) [])
      frame_A frame_B ''sunrise time-lapse''
     = (Threw (RemoteError ''quota exceeded''),
        [Progress preparing, ReadFile frame_A, ReadFile frame_B, Progress initiating,
         CallGenerateVideos (video_request_of ''sunrise time-lapse'' part_A frame_A part_B frame_B)])
   \<and> generateVideo
      (remote_env (Some ''K'') (Inr \<lparr>candidates = None\<rparr>) (Inr running)
         [Inr running, Inl (RemoteError ''Requested entity was not found''),
          Inr (finished [video_at ''https://example/video123''])])
      frame_A frame_B ''sunrise time-lapse''
     = (Threw (RemoteError ''Requested entity was not found''),
        submitted frame_A frame_B
          (video_request_of ''sunrise time-lapse'' part_A frame_A part_B frame_B)
        @ attempts 0 [running, running])"
proof -
  let ?rejected = "remote_env (Some ''K'') (Inr \<lparr>candidates = None\<rparr>)
    (Inl (RemoteError ''quota exceeded'')) []"
  let ?broken = "remote_env (Some ''K'') (Inr \<lparr>candidates = None\<rparr>) (Inr running)
    [Inr running, Inl (RemoteError ''Requested entity was not found''),
     Inr (finished [video_at ''https://example/video123''])]"
  let ?req = "video_request_of ''sunrise time-lapse'' part_A frame_A part_B frame_B"
  have rejected: "generateVideos ?rejected ?req = Inl (RemoteError ''quota exceeded'')"
    by (simp add: scenario_submission)
  note submission = generateVideo_remote_failure
    [OF scenario_client scenario_part_A scenario_part_B,
      of "Inr \<lparr>candidates = None\<rparr>" "Inl (RemoteError ''quota exceeded'')" "[]"
        "''sunrise time-lapse''",
      THEN conjunct1, rule_format, OF rejected]
  have first: "generateVideo ?rejected frame_A frame_B ''sunrise time-lapse''
     = (Threw (RemoteError ''quota exceeded''),
        [Progress preparing, ReadFile frame_A, ReadFile frame_B, Progress initiating,
         CallGenerateVideos ?req])"
    unfolding prod_eq_iff fst_conv snd_conv
    using submission [THEN conjunct1] submission [THEN conjunct2, THEN conjunct1]
    by (rule conjI)
  have broken: "generateVideos ?broken ?req = Inr running
    \<and> (\<forall>x\<in>set (running # [running]). \<not> is_done x)
    \<and> getVideosOperation ?broken
        = map Inr [running] @ Inl (RemoteError ''Requested entity was not found'')
          # [Inr (finished [video_at ''https://example/video123''])]"
    by (simp add: scenario_submission scenario_snapshots)
  note fetch = generateVideo_remote_failure
    [OF scenario_client scenario_part_A scenario_part_B,
      of "Inr \<lparr>candidates = None\<rparr>" "Inr running"
        "[Inr running, Inl (RemoteError ''Requested entity was not found''),
          Inr (finished [video_at ''https://example/video123''])]"
        "''sunrise time-lapse''",
      THEN conjunct2, rule_format, OF broken]
  have second: "generateVideo ?broken frame_A frame_B ''sunrise time-lapse''
     = (Threw (RemoteError ''Requested entity was not found''),
        submitted frame_A frame_B ?req @ attempts 0 [running, running])"
    unfolding prod_eq_iff fst_conv snd_conv
    using fetch [THEN conjunct1] fetch [THEN conjunct2, THEN conjunct1]
    by (rule conjI)
  from first second show ?thesis by simp
qed

text \<open>
  C3, as the code has it. When the submission's snapshot and the snapshot of the first
  status fetch both report \<^verbatim>\<open>done\<close> false, and the snapshot of the second status fetch
  reports \<^verbatim>\<open>done\<close> true with \<^verbatim>\<open>generatedVideos[0].video.uri\<close> a non-empty string \<open>U\<close>,
  \<^verbatim>\<open>generateVideo\<close> returns \<open>U\<close> followed by \<^verbatim>\<open>&key=\<close> and the credential, and emits exactly
  two checking-status messages, for the attempts 1 and 2. Every snapshot that is not done
  costs one attempt, the submission's included.
\<close>

theorem generateVideo_two_pending_snapshots:
  assumes "getAiClient e = Inr key"
    and "fileToGenerativePart e s = Inr sp"
    and "fileToGenerativePart e f = Inr ep"
    and "generateVideos e (video_request_of p sp s ep f) = Inr operation"
    and "\<not> is_done operation"
    and "getVideosOperation e = Inr second # Inr final # rest"
    and "\<not> is_done second"
    and "is_done final"
    and "op_response final = Some r"
    and "generatedVideos r = Some (g # gs)"
    and "gv_video g = Some v"
    and "uri v = Some U"
    and "U \<noteq> []"
  shows "fst (generateVideo e s f p) = Returned (U @ ''&key='' @ key)
    \<and> progress_of (snd (generateVideo e s f p))
        = [preparing, initiating, in_progress, checking_status 1, checking_status 2, finalizing]"
proof -
  have polls: "getVideosOperation e = map Inr [second, final] @ rest"
    by (simp add: assms(6))
  have snapshots: "operation # [second, final] = [operation, second] @ [final]"
    by simp
  have pending: "\<forall>x\<in>set [operation, second]. \<not> is_done x"
    by (simp add: assms(5,7))
  have run: "generateVideo e s f p
      = finalize e final
          (submitted s f (video_request_of p sp s ep f) @ attempts 0 [operation, second])"
    by (rule generateVideo_done [OF assms(1-4) polls snapshots pending assms(8)])
  have link: "downloadLink final = Some U"
    by (simp add: downloadLink_def assms(9-12))
  from truthy_client [OF assms(1)] have key: "API_KEY e = Some key" by simp
  have "fst (generateVideo e s f p) = Returned (U @ ''&key='' @ key)"
    by (simp add: run finalize_def link key assms(13))
  moreover have "progress_of (snd (generateVideo e s f p))
      = [preparing, initiating, in_progress, checking_status 1, checking_status 2, finalizing]"
    by (simp add: run snd_finalize progress_of_append progress_of_submitted numeral_2_eq_2)
  ultimately show ?thesis by simp
qed

theorem generateVideo_two_pending_snapshots_witness:
  "generateVideo
      (remote_env (Some ''K'') (Inr \<lparr>candidates = None\<rparr>) (Inr running)
         [Inr running, Inr (finished [video_at ''https://example/video123''])])
      frame_A frame_B ''sunrise time-lapse''
   = (Returned ''https://example/video123&key=K'',
      submitted frame_A frame_B
        (video_request_of ''sunrise time-lapse'' part_A frame_A part_B frame_B)
      @ attempts 0 [running, running] @ [Progress finalizing])
   \<and> progress_of (snd (generateVideo
      (remote_env (Some ''K'') (Inr \<lparr>candidates = None\<rparr>) (Inr running)
         [Inr running, Inr (finished [video_at ''https://example/video123''])])
      frame_A frame_B ''sunrise time-lapse''))
     = [preparing, initiating, in_progress, checking_status 1, checking_status 2, finalizing]"
proof -
  let ?e = "remote_env (Some ''K'') (Inr \<lparr>candidates = None\<rparr>) (Inr running)
    [Inr running, Inr (finished [video_at ''https://example/video123''])]"
  let ?run = "generateVideo ?e frame_A frame_B ''sunrise time-lapse''"
  have polls: "getVideosOperation ?e
      = Inr running # Inr (finished [video_at ''https://example/video123'']) # []"
    by (simp add: scenario_submission)
  have response: "op_response (finished [video_at ''https://example/video123''])
      = Some \<lparr>generatedVideos = Some [video_at ''https://example/video123'']\<rparr>"
    by (simp add: finished_def)
  have entry: "generatedVideos \<lparr>generatedVideos = Some [video_at ''https://example/video123'']\<rparr>
      = Some (video_at ''https://example/video123'' # [])"
    by simp
  have location: "gv_video (video_at ''https://example/video123'')
      = Some \<lparr>uri = Some ''https://example/video123''\<rparr>"
    by (simp add: video_at_def)
  have there: "uri \<lparr>uri = Some ''https://example/video123''\<rparr> = Some ''https://example/video123''"
    by simp
  have nonempty: "''https://example/video123'' \<noteq> []"
    by simp
  note claim = generateVideo_two_pending_snapshots
    [OF scenario_client scenario_part_A scenario_part_B scenario_submission(1)
      scenario_snapshots(1) polls scenario_snapshots(1) scenario_snapshots(2)
      response entry location there nonempty, where p = "''sunrise time-lapse''"]
  have trace: "snd ?run
      = submitted frame_A frame_B
          (video_request_of ''sunrise time-lapse'' part_A frame_A part_B frame_B)
        @ attempts 0 [running, running] @ [Progress finalizing]"
    using generateVideo_done [OF scenario_client scenario_part_A scenario_part_B
        scenario_submission(1), where rs = "[running, finished [video_at ''https://example/video123'']]"
        and rest = "[]" and pending = "[running, running]"
        and d = "finished [video_at ''https://example/video123'']" and p = "''sunrise time-lapse''"]
    by (simp add: scenario_submission scenario_snapshots snd_finalize)
  from claim trace show ?thesis by (simp add: prod_eq_iff)
qed

text \<open>
  C3, as it is stated, fails: when the remote service reports \<^verbatim>\<open>done\<close> false twice after
  the submission's snapshot (which is not done either) and then \<^verbatim>\<open>done\<close> true with the
  URI, the result is the one the claim gives, but three checking-status messages have
  been emitted, not two.
\<close>

theorem generateVideo_two_reports_after_submission_counterexample:
  "fst (generateVideo
      (remote_env (Some ''K'') (Inr \<lparr>candidates = None\<rparr>) (Inr running)
         [Inr running, Inr running, Inr (finished [video_at ''https://example/video123''])])
      frame_A frame_B ''sunrise time-lapse'') = Returned ''https://example/video123&key=K''
   \<and> progress_of (snd (generateVideo
      (remote_env (Some ''K'') (Inr \<lparr>candidates = None\<rparr>) (Inr running)
         [Inr running, Inr running, Inr (finished [video_at ''https://example/video123''])])
      frame_A frame_B ''sunrise time-lapse''))
     = [preparing, initiating, in_progress, checking_status 1, checking_status 2,
        checking_status 3, finalizing]
   \<and> progress_of (snd (generateVideo
      (remote_env (Some ''K'') (Inr \<lparr>candidates = None\<rparr>) (Inr running)
         [Inr running, Inr running, Inr (finished [video_at ''https://example/video123''])])
      frame_A frame_B ''sunrise time-lapse''))
     \<noteq> [preparing, initiating, in_progress, checking_status 1, checking_status 2, finalizing]"
proof -
  let ?e = "remote_env (Some ''K'') (Inr \<lparr>candidates = None\<rparr>) (Inr running)
    [Inr running, Inr running, Inr (finished [video_at ''https://example/video123''])]"
  have run: "generateVideo ?e frame_A frame_B ''sunrise time-lapse''
    = finalize ?e (finished [video_at ''https://example/video123''])
        (submitted frame_A frame_B
           (video_request_of ''sunrise time-lapse'' part_A frame_A part_B frame_B)
         @ attempts 0 [running, running, running])"
    by (rule generateVideo_done [OF scenario_client scenario_part_A scenario_part_B
          scenario_submission(1),
          where rs = "[running, running, finished [video_at ''https://example/video123'']]"
          and rest = "[]"])
      (simp_all add: scenario_submission scenario_snapshots)
  have "fst (generateVideo ?e frame_A frame_B ''sunrise time-lapse'')
    = Returned ''https://example/video123&key=K''"
    unfolding run
    by (simp add: finalize_def downloadLink_def finished_def video_at_def scenario_submission)
  moreover have "progress_of (snd (generateVideo ?e frame_A frame_B ''sunrise time-lapse''))
    = [preparing, initiating, in_progress, checking_status 1, checking_status 2,
       checking_status 3, finalizing]"
    unfolding run
    by (simp add: snd_finalize progress_of_append progress_of_submitted numeral_2_eq_2
        numeral_3_eq_3)
  ultimately show ?thesis by simp
qed




text \<open>
  C9. \<^verbatim>\<open>editImage\<close> looks at the first candidate only. When the response has no candidates
  list or an empty one, the call fails with a \<^verbatim>\<open>TypeError\<close> (the first candidate is read
  without a guard), which is not the no-image-data error. When the first candidate has
  no part with inline data, the call fails, whatever the later candidates carry.
\<close>

theorem editImage_first_candidate_only:
  assumes "getAiClient e = Inr key"
    and "fileToGenerativePart e f = Inr ip"
    and "generateContent e (edit_request ip p) = Inr r"
  shows "(candidates r = None \<or> candidates r = Some [] \<longrightarrow>
        fst (editImage e f p) = Inl TypeError
      \<and> fst (editImage e f p) \<noteq> Inl (Error no_image_data))
    \<and> (\<forall>c cs. candidates r = Some (c # cs) \<and> (\<forall>q\<in>set (parts_of_candidate c). \<not> carries_image q) \<longrightarrow>
        (\<exists>err. fst (editImage e f p) = Inl err))"
proof (intro conjI allI impI)
  note run = editImage_response [OF assms]
  assume "candidates r = None \<or> candidates r = Some []"
  then have failed: "first_image r = Inl TypeError"
    by (auto simp: first_image_def)
  then show "fst (editImage e f p) = Inl TypeError" by (simp add: run)
  from failed show "fst (editImage e f p) \<noteq> Inl (Error no_image_data)" by (simp add: run)
next
  fix c cs
  note run = editImage_response [OF assms]
  assume h: "candidates r = Some (c # cs) \<and> (\<forall>q\<in>set (parts_of_candidate c). \<not> carries_image q)"
  show "\<exists>err. fst (editImage e f p) = Inl err"
  proof (cases "content c")
    case None
    with h show ?thesis by (simp add: run first_image_def)
  next
    case ct: (Some ct)
    show ?thesis
    proof (cases "parts ct")
      case None
      with h ct show ?thesis by (simp add: run first_image_def)
    next
      case (Some ps)
      with h ct have "\<forall>q\<in>set ps. \<not> carries_image q"
        by (simp add: parts_of_candidate_def)
      then have "scan_parts ps = None" by (rule scan_parts_none)
      with h ct Some show ?thesis by (simp add: run first_image_def)
    qed
  qed
qed

theorem editImage_first_candidate_only_witness:
  "fst (editImage (remote_env (Some ''K'') (Inr \<lparr>candidates = Some []\<rparr>) (Inr running) [])
      frame_A ''make the sky blue'') = Inl TypeError
   \<and> (\<exists>err. fst (editImage
      (remote_env (Some ''K'')
         (Inr \<lparr>candidates = Some [candidate_of [text_part ''I cannot do that.''],
                                   candidate_of [image_part ''AAAA'']]\<rparr>)
         (Inr running) [])
      frame_A ''make the sky blue'') = Inl err)"
proof -
  let ?later = "\<lparr>candidates = Some [candidate_of [text_part ''I cannot do that.''],
    candidate_of [image_part ''AAAA'']]\<rparr>"
  have empty: "candidates \<lparr>candidates = Some []\<rparr> = None \<or> candidates \<lparr>candidates = Some []\<rparr> = Some []"
    by simp
  have later: "candidates ?later
        = Some (candidate_of [text_part ''I cannot do that.''] # [candidate_of [image_part ''AAAA'']])
      \<and> (\<forall>q\<in>set (parts_of_candidate (candidate_of [text_part ''I cannot do that.''])).
            \<not> carries_image q)"
    by (simp add: parts_of_candidate_def candidate_of_def carries_image_def text_part_def)
  from editImage_first_candidate_only
    [OF scenario_client scenario_part_A scenario_submission(3),
      THEN conjunct1, rule_format, OF empty, THEN conjunct1]
  have "fst (editImage (remote_env (Some ''K'') (Inr \<lparr>candidates = Some []\<rparr>) (Inr running) [])
      frame_A ''make the sky blue'') = Inl TypeError" .
  moreover from editImage_first_candidate_only
    [OF scenario_client scenario_part_A scenario_submission(3),
      THEN conjunct2, rule_format, OF later]
  have "\<exists>err. fst (editImage (remote_env (Some ''K'') (Inr ?later) (Inr running) [])
      frame_A ''make the sky blue'') = Inl err" .
  ultimately show ?thesis by (rule conjI)
qed

text \<open>
  C8, as the code has it. For every file whose declared media type has no comma, read by
  a reader that answers with the file's data URL, the encoder returns a payload whose
  \<^verbatim>\<open>mimeType\<close> is the file's declared type, unchanged, and whose \<^verbatim>\<open>data\<close> is the base64
  encoding of the file's bytes: decoding it gives the bytes back.
\<close>

theorem fileToGenerativePart_roundtrip:
  assumes "readAsDataURL e f = browser_reader f"
    and "CHR '','' \<notin> set (file_type f)"
  shows "\<exists>d. fileToGenerativePart e f = Inr \<lparr>inlineData = \<lparr>data = Some d, mimeType = file_type f\<rparr>\<rparr>
    \<and> base64_decode d = Some (file_bytes f)"
proof -
  let ?header = "''data:'' @ (if file_type f = [] then ''application/octet-stream'' else file_type f)
    @ '';base64''"
  have url: "data_url f = ?header @ CHR '','' # base64_encode (file_bytes f)"
    by (simp add: data_url_def)
  from assms(2) have header: "CHR '','' \<notin> set ?header"
    by simp
  have payload: "CHR '','' \<notin> set (base64_encode (file_bytes f))"
    by (rule base64_no_comma)
  have "split_on CHR '','' (data_url f) = [?header, base64_encode (file_bytes f)]"
    unfolding url split_on_first [OF header] split_on_no_separator [OF payload]
    by (rule refl)
  with assms(1) have "fileToGenerativePart e f
      = Inr \<lparr>inlineData = \<lparr>data = Some (base64_encode (file_bytes f)), mimeType = file_type f\<rparr>\<rparr>"
    by (simp add: fileToGenerativePart_def browser_reader_def)
  then show ?thesis using base64_roundtrip [of "file_bytes f"] by blast
qed

theorem fileToGenerativePart_roundtrip_witness:
  "fileToGenerativePart (remote_env None (Inr \<lparr>candidates = None\<rparr>) (Inr running) []) frame_A
     = Inr \<lparr>inlineData = \<lparr>data = Some ''iVBORw=='', mimeType = ''image/png''\<rparr>\<rparr>
   \<and> base64_decode ''iVBORw=='' = Some [137, 80, 78, 71]"
proof -
  let ?e = "remote_env None (Inr \<lparr>candidates = None\<rparr>) (Inr running) []"
  have loaded: "readAsDataURL ?e frame_A = browser_reader frame_A"
    by (simp add: remote_env_def)
  have type: "CHR '','' \<notin> set (file_type frame_A)"
    by (simp add: frame_A_def)
  from fileToGenerativePart_roundtrip [OF loaded type]
  obtain d where d: "fileToGenerativePart ?e frame_A
        = Inr \<lparr>inlineData = \<lparr>data = Some d, mimeType = file_type frame_A\<rparr>\<rparr>"
      "base64_decode d = Some (file_bytes frame_A)"
    by blast
  from d(1) scenario_part_A [of None "Inr \<lparr>candidates = None\<rparr>" "Inr running" "[]"]
  have "d = ''iVBORw==''" by (simp add: part_A_def)
  with d show ?thesis by (simp add: frame_A_def)
qed

text \<open>
  C8, as it is stated, fails: for a file whose declared type is
  \<^verbatim>\<open>image/png;name=a,b\<close> the data URL has a comma in its header, the payload's \<^verbatim>\<open>data\<close>
  is \<^verbatim>\<open>b;base64\<close>, and decoding it does not give the file's bytes.
\<close>

theorem fileToGenerativePart_comma_type_counterexample:
  "fileToGenerativePart (remote_env None (Inr \<lparr>candidates = None\<rparr>) (Inr running) []) frame_C
     = Inr \<lparr>inlineData = \<lparr>data = Some ''b;base64'', mimeType = ''image/png;name=a,b''\<rparr>\<rparr>
   \<and> base64_decode ''b;base64'' \<noteq> Some (file_bytes frame_C)"
proof -
  have "nth_opt (split_on CHR '','' (data_url frame_C)) (Suc 0) = Some ''b;base64''"
    "file_type frame_C = ''image/png;name=a,b''"
    "base64_decode ''b;base64'' = None"
    by code_simp+
  then show ?thesis
    by (simp add: fileToGenerativePart_def remote_env_def browser_reader_def)
qed

text \<open>
  C10, as the code has it. The encoder fails exactly when the read fails or the reader's
  result is not a string. For every reader result that is a string the encoder succeeds;
  its \<^verbatim>\<open>data\<close> is what stands between the first comma and the next comma (or the end of
  the string when there is no second comma), and is absent when the string has no comma.
\<close>

theorem fileToGenerativePart_string_result:
  "(\<forall>t. readAsDataURL e f = LoadEnd (StringResult t) \<longrightarrow>
      fileToGenerativePart e f
        = Inr \<lparr>inlineData =
            \<lparr>data = (if CHR '','' \<in> set t
                      then Some (takeWhile (\<lambda>x. x \<noteq> CHR '','') (after_first_comma t))
                      else None),
             mimeType = file_type f\<rparr>\<rparr>)
   \<and> ((\<exists>err. fileToGenerativePart e f = Inl err)
        \<longleftrightarrow> (readAsDataURL e f = ErrorEvent \<or> readAsDataURL e f = LoadEnd OtherResult))"
proof (intro conjI allI impI)
  fix t
  assume "readAsDataURL e f = LoadEnd (StringResult t)"
  then show "fileToGenerativePart e f
      = Inr \<lparr>inlineData =
          \<lparr>data = (if CHR '','' \<in> set t
                    then Some (takeWhile (\<lambda>x. x \<noteq> CHR '','') (after_first_comma t))
                    else None),
           mimeType = file_type f\<rparr>\<rparr>"
    by (simp add: fileToGenerativePart_def split_on_second after_first_comma_def)
next
  show "(\<exists>err. fileToGenerativePart e f = Inl err)
      \<longleftrightarrow> (readAsDataURL e f = ErrorEvent \<or> readAsDataURL e f = LoadEnd OtherResult)"
    by (auto simp: fileToGenerativePart_def split: read_outcome.splits reader_result.splits)
qed

theorem fileToGenerativePart_string_result_witness:
  "fileToGenerativePart (reader_env (LoadEnd (StringResult ''data:image/png;base64,iVBORw==''))) frame_A
     = Inr \<lparr>inlineData = \<lparr>data = Some ''iVBORw=='', mimeType = ''image/png''\<rparr>\<rparr>
   \<and> fileToGenerativePart (reader_env (LoadEnd (StringResult ''data:''))) frame_A
     = Inr \<lparr>inlineData = \<lparr>data = None, mimeType = ''image/png''\<rparr>\<rparr>"
proof -
  have loaded: "readAsDataURL (reader_env (LoadEnd (StringResult t))) frame_A
      = LoadEnd (StringResult t)" for t
    by (simp add: reader_env_def)
  note claim = fileToGenerativePart_string_result [THEN conjunct1, rule_format, OF loaded]
  from claim [of "''data:image/png;base64,iVBORw==''"] claim [of "''data:''"]
  show ?thesis by (simp add: after_first_comma_def frame_A_def)
qed

text \<open>
  C10, as it is stated, fails: on a string with two commas the \<^verbatim>\<open>data\<close> is not the
  substring after the first comma, but only its part before the second comma.
\<close>

theorem fileToGenerativePart_second_comma_counterexample:
  "fileToGenerativePart
      (reader_env (LoadEnd (StringResult ''data:image/png;name=a,b;base64,iVBORw==''))) frame_A
     = Inr \<lparr>inlineData = \<lparr>data = Some ''b;base64'', mimeType = ''image/png''\<rparr>\<rparr>
   \<and> after_first_comma ''data:image/png;name=a,b;base64,iVBORw=='' = ''b;base64,iVBORw==''
   \<and> fileToGenerativePart
      (reader_env (LoadEnd (StringResult ''data:image/png;name=a,b;base64,iVBORw==''))) frame_A
     \<noteq> Inr \<lparr>inlineData =
          \<lparr>data = Some (after_first_comma ''data:image/png;name=a,b;base64,iVBORw==''),
           mimeType = ''image/png''\<rparr>\<rparr>"
  by (simp add: fileToGenerativePart_def reader_env_def after_first_comma_def frame_A_def)

end
